theory Spec2Isabelle
  imports Main
begin

section \<open>The sensor node of \<open>node/sensor.py\<close>\<close>

text \<open>
  The class \<open>Sensor\<close> talks to three pieces of hardware: a GPS receiver, the AS3935
  lightning detector with its interrupt pin, and the real time clock. The model passes
  the object's state explicitly and hands every blocking loop the list of answers that
  the simulated hardware gives, one element per loop pass. A loop that uses up its list
  while it is still waiting ends in \<open>Pending\<close>: the call has not returned.
\<close>

subsection \<open>Values\<close>

text \<open>
  Python numbers. The sentinel \<open>-1\<close> of the source is the integer \<open>PyInt (-1)\<close>;
  floating point values (coordinates) are kept abstract in \<open>'f\<close>.
\<close>

datatype 'f pynum = PyInt int | PyFloat 'f

text \<open>\<open>time.struct_time\<close>, nine integer fields.\<close>

record struct_time =
  tm_year :: int
  tm_mon :: int
  tm_mday :: int
  tm_hour :: int
  tm_min :: int
  tm_sec :: int
  tm_wday :: int
  tm_yday :: int
  tm_isdst :: int

text \<open>
  \<open>rtc.RTC()\<close>: the calendar value last written to it (\<open>None\<close> is the power-on
  default) and the milliseconds that have passed since.
\<close>

record rtc =
  datetime :: "struct_time option"
  elapsed :: nat

text \<open>The only exception the source handles.\<close>

datatype exn = KeyboardInterrupt

text \<open>
  How a call ends: it has not returned when the simulated input ran out (\<open>Pending\<close>),
  it raised, or it returned a value.
\<close>

datatype 'a outcome = Pending | Raise exn | Return 'a

subsection \<open>Effects\<close>

text \<open>The lines printed to the console, with the values formatted into them.\<close>

datatype 'f message =
    Waiting_for_fix
  | Got_GPS_Fix
  | Noise_msg
  | Disturber_msg nat "'f pynum"
  | Lightning_msg "'f pynum"
  | Created string

text \<open>Every access to hardware, in the order the code makes it.\<close>

datatype 'f action =
    GpsEnable bool
  | UartOpen
  | SendCommand string
  | GpsUpdate
  | Sleep nat
  | RtcWrite struct_time
  | RtcRead
  | TimeRead
  | PinRead
  | ReadInterruptRegister
  | ReadDistance
  | ReadEnergy
  | ClearStatistics
  | Led bool
  | Print "'f message"

text \<open>The fields of \<open>Sensor\<close> that the modelled methods use, and the trace of effects.\<close>

record 'f sensor =
  clock :: rtc
  GPS_ENABLE :: bool
  gps_lat :: "'f pynum"
  gps_long :: "'f pynum"
  PiLED :: bool
  trace :: "'f action list"

definition emit :: "'f action \<Rightarrow> 'f sensor \<Rightarrow> 'f sensor" where
  "emit a s = s\<lparr>trace := trace s @ [a]\<rparr>"

text \<open>\<open>time.sleep\<close>, in milliseconds: the clock runs on.\<close>

definition sleep :: "nat \<Rightarrow> 'f sensor \<Rightarrow> 'f sensor" where
  "sleep ms s = emit (Sleep ms) (s\<lparr>clock := (clock s)\<lparr>elapsed := elapsed (clock s) + ms\<rparr>\<rparr>)"

subsection \<open>\<open>Sensor.get_GPS_Fix\<close>\<close>

text \<open>
  The state of the \<open>adafruit_gps.GPS\<close> object after an \<open>update()\<close>. A simulated fix
  sequence is a list of these, one per \<open>update()\<close>.
\<close>

record 'f gps_module =
  has_fix :: bool
  timestamp_utc :: struct_time
  latitude :: "'f pynum"
  longitude :: "'f pynum"

text \<open>
  One pass of the polling loop:
  \<^verbatim>\<open>
  print("Waiting for fix...")
  gps_module.update()
  check_y = gps_module.timestamp_utc.tm_year
  time.sleep(1)
  \<close>
  The new \<open>gps_module\<close> and \<open>check_y\<close> come from the next element of the fix
  sequence; this is what the pass does to the object.
\<close>

definition poll_cycle :: "'f sensor \<Rightarrow> 'f sensor" where
  "poll_cycle s = sleep 1000 (emit GpsUpdate (emit (Print Waiting_for_fix) s))"

text \<open>\<open>while not gps_module.has_fix or check_y == 2020: ...\<close>\<close>

fun fix_loop ::
  "'f gps_module \<Rightarrow> int \<Rightarrow> 'f gps_module list \<Rightarrow> 'f sensor
    \<Rightarrow> 'f gps_module outcome \<times> 'f gps_module list \<times> 'f sensor" where
  "fix_loop gps check_y polls s =
     (if \<not> has_fix gps \<or> check_y = 2020 then
        (case polls of
           [] \<Rightarrow> (Pending, [], s)
         | p # ps \<Rightarrow> fix_loop p (tm_year (timestamp_utc p)) ps (poll_cycle s))
      else (Return gps, polls, s))"

declare fix_loop.simps [simp del]

text \<open>
  Power, serial port and the two configuration commands:
  \<^verbatim>\<open>
  self.GPS_ENABLE.value = 1
  UART = busio.UART(tx=board.GP0, rx=board.GP1, baudrate=9600, timeout=10)
  gps_module = adafruit_gps.GPS(UART, debug=False)
  gps_module.send_command(b"PMTK314,0,1,0,1,0,0,0,0,0,0,0,0,0,0,0,0,0,0,0")
  gps_module.send_command(b"PMTK220,1000")
  \<close>
\<close>

definition start_receiver :: "'f sensor \<Rightarrow> 'f sensor" where
  "start_receiver s =
     emit (SendCommand ''PMTK220,1000'')
       (emit (SendCommand ''PMTK314,0,1,0,1,0,0,0,0,0,0,0,0,0,0,0,0,0,0,0'')
         (emit UartOpen (emit (GpsEnable True) (s\<lparr>GPS_ENABLE := True\<rparr>))))"

text \<open>
  \<open>self.clock.datetime = time.struct_time((tm_year, ..., tm_yday, -1))\<close>, from the
  receiver's \<open>timestamp_utc\<close>.
\<close>

definition fix_time :: "'f gps_module \<Rightarrow> struct_time" where
  "fix_time g =
     \<lparr>tm_year = tm_year (timestamp_utc g),
      tm_mon = tm_mon (timestamp_utc g),
      tm_mday = tm_mday (timestamp_utc g),
      tm_hour = tm_hour (timestamp_utc g),
      tm_min = tm_min (timestamp_utc g),
      tm_sec = tm_sec (timestamp_utc g),
      tm_wday = tm_wday (timestamp_utc g),
      tm_yday = tm_yday (timestamp_utc g),
      tm_isdst = - 1\<rparr>"

definition set_clock :: "'f gps_module \<Rightarrow> 'f sensor \<Rightarrow> 'f sensor" where
  "set_clock g s =
     emit (RtcWrite (fix_time g)) (s\<lparr>clock := \<lparr>datetime = Some (fix_time g), elapsed = 0\<rparr>\<rparr>)"

text \<open>
  \<open>GPS\<close> is the flag of \<open>constants.py\<close>; \<open>gps_module\<close> is the freshly constructed
  receiver object, before its first \<open>update()\<close>; \<open>check_y\<close> starts at 2020.
\<close>

definition get_GPS_Fix ::
  "bool \<Rightarrow> 'f gps_module \<Rightarrow> 'f gps_module list \<Rightarrow> 'f sensor
    \<Rightarrow> ('f pynum \<times> 'f pynum) outcome \<times> 'f gps_module list \<times> 'f sensor" where
  "get_GPS_Fix GPS gps_module polls s =
     (if GPS then
        (case fix_loop gps_module 2020 polls (start_receiver s) of
           (Pending, rest, s1) \<Rightarrow> (Pending, rest, s1)
         | (Raise e, rest, s1) \<Rightarrow> (Raise e, rest, s1)
         | (Return g, rest, s1) \<Rightarrow>
             (let s2 = emit (Print Got_GPS_Fix) s1;
                  gps_lat = latitude g;
                  gps_long = longitude g
              in (Return (gps_lat, gps_long), rest, set_clock g s2)))
      else (Return (PyInt (- 1), PyInt (- 1)), polls, s))"

text \<open>
  A poll keeps the loop going when the receiver has no fix or still reports the year
  2020.
\<close>

definition blocked :: "'f gps_module \<Rightarrow> bool" where
  "blocked p = (\<not> has_fix p \<or> tm_year (timestamp_utc p) = 2020)"

subsection \<open>\<open>Sensor.lightning\<close>\<close>

text \<open>
  The three interrupt causes are class constants of the detector's driver
  (\<open>self.as3935.NOISE\<close> and so on), which is not part of the repository.
\<close>

record as3935 =
  NOISE :: int
  DISTURBER :: int
  LIGHTNING :: int

text \<open>
  The statements of the loop body at which a \<open>KeyboardInterrupt\<close> can stop a pass:
  the exception is raised when control reaches the statement, which then has no effect.
\<close>

datatype cancel_point =
    AtPinRead
  | AtReadRegister
  | AtReadDistance
  | AtReadEnergy
  | AtClearStatistics
  | AtSleep
  | AtLedOff

text \<open>
  What the simulated hardware answers during one pass of \<open>while True\<close>: the level of
  the interrupt pin, the three readouts of the detector, and whether the operator
  interrupts the pass.
\<close>

record 'f pass =
  pin :: bool
  interrupt_register :: int
  distance_to_storm :: "'f pynum"
  lightning_energy :: "'f pynum"
  ctrl_c :: "cancel_point option"

text \<open>Where control goes after one pass of the loop body.\<close>

datatype flow = Next | Break | Raised exn

text \<open>
  \<^verbatim>\<open>
  time.sleep(0.5)
  self.PiLED.value = 0
  \<close>
\<close>

definition settle ::
  "'f pass \<Rightarrow> 'f pynum \<Rightarrow> nat \<Rightarrow> 'f sensor \<Rightarrow> flow \<times> 'f pynum \<times> nat \<times> 'f sensor" where
  "settle p distance i s =
     (if ctrl_c p = Some AtSleep then (Raised KeyboardInterrupt, distance, i, s)
      else if ctrl_c p = Some AtLedOff then (Raised KeyboardInterrupt, distance, i, sleep 500 s)
      else (Next, distance, i, emit (Led False) ((sleep 500 s)\<lparr>PiLED := False\<rparr>)))"

text \<open>The \<open>if\<close>/\<open>elif\<close> chain on \<open>interrupt_value\<close>, in the order of the source.\<close>

definition classify ::
  "as3935 \<Rightarrow> 'f pass \<Rightarrow> 'f pynum \<Rightarrow> nat \<Rightarrow> 'f sensor \<Rightarrow> flow \<times> 'f pynum \<times> nat \<times> 'f sensor" where
  "classify det p distance i s =
     (if interrupt_register p = NOISE det then
        (let s1 = emit (Print Noise_msg) s
         in if ctrl_c p = Some AtClearStatistics then (Raised KeyboardInterrupt, distance, i, s1)
            else settle p distance i (emit ClearStatistics s1))
      else if interrupt_register p = DISTURBER det then
        (let i1 = i + 1;
             s1 = emit (Print (Disturber_msg i1 distance)) s
         in if ctrl_c p = Some AtClearStatistics then (Raised KeyboardInterrupt, distance, i1, s1)
            else (Break, distance, i1, emit ClearStatistics s1))
      else if interrupt_register p = LIGHTNING det then
        (let s1 = emit (Led True) (s\<lparr>PiLED := True\<rparr>);
             s2 = emit (Print (Lightning_msg distance)) s1
         in if ctrl_c p = Some AtClearStatistics then (Raised KeyboardInterrupt, distance, i, s2)
            else (Break, distance, i, emit ClearStatistics s2))
      else settle p distance i s)"

text \<open>
  \<^verbatim>\<open>
  interrupt_value = self.as3935.read_interrupt_register()
  distance = self.as3935.distance_to_storm
  intensity = self.as3935.lightning_energy
  \<close>
\<close>

definition read_detector ::
  "as3935 \<Rightarrow> 'f pass \<Rightarrow> 'f pynum \<Rightarrow> nat \<Rightarrow> 'f sensor \<Rightarrow> flow \<times> 'f pynum \<times> nat \<times> 'f sensor" where
  "read_detector det p distance i s =
     (if ctrl_c p = Some AtReadRegister then (Raised KeyboardInterrupt, distance, i, s)
      else if ctrl_c p = Some AtReadDistance then
        (Raised KeyboardInterrupt, distance, i, emit ReadInterruptRegister s)
      else if ctrl_c p = Some AtReadEnergy then
        (Raised KeyboardInterrupt, distance_to_storm p, i,
           emit ReadDistance (emit ReadInterruptRegister s))
      else classify det p (distance_to_storm p) i
             (emit ReadEnergy (emit ReadDistance (emit ReadInterruptRegister s))))"

text \<open>One pass of \<open>while True\<close>. \<open>LS\<close> is the flag of \<open>constants.py\<close>.\<close>

definition lightning_pass ::
  "as3935 \<Rightarrow> bool \<Rightarrow> 'f pass \<Rightarrow> 'f pynum \<Rightarrow> nat \<Rightarrow> 'f sensor
    \<Rightarrow> flow \<times> 'f pynum \<times> nat \<times> 'f sensor" where
  "lightning_pass det LS p distance i s =
     (if ctrl_c p = Some AtPinRead then (Raised KeyboardInterrupt, distance, i, s)
      else if pin p then
        (if LS then read_detector det p distance i (emit PinRead s)
         else (Break, distance, i, emit PinRead s))
      else (Next, distance, i, emit PinRead s))"

fun lightning_loop ::
  "as3935 \<Rightarrow> bool \<Rightarrow> 'f pynum \<Rightarrow> nat \<Rightarrow> 'f pass list \<Rightarrow> 'f sensor
    \<Rightarrow> unit outcome \<times> 'f pynum \<times> 'f pass list \<times> 'f sensor" where
  "lightning_loop det LS distance i [] s = (Pending, distance, [], s)"
| "lightning_loop det LS distance i (p # ps) s =
     (case lightning_pass det LS p distance i s of
        (Next, d, j, s') \<Rightarrow> lightning_loop det LS d j ps s'
      | (Break, d, j, s') \<Rightarrow> (Return (), d, ps, s')
      | (Raised e, d, j, s') \<Rightarrow> (Raise e, d, ps, s'))"

text \<open>
  \<^verbatim>\<open>
  distance = -1
  try:
      i = 0
      while True: ...
  except KeyboardInterrupt:
      pass
  return distance
  \<close>
\<close>

definition lightning ::
  "as3935 \<Rightarrow> bool \<Rightarrow> 'f pass list \<Rightarrow> 'f sensor
    \<Rightarrow> 'f pynum outcome \<times> 'f pass list \<times> 'f sensor" where
  "lightning det LS ps s =
     (case lightning_loop det LS (PyInt (- 1)) 0 ps s of
        (Pending, d, rest, s') \<Rightarrow> (Pending, rest, s')
      | (Raise KeyboardInterrupt, d, rest, s') \<Rightarrow> (Return d, rest, s')
      | (Return u, d, rest, s') \<Rightarrow> (Return d, rest, s'))"

text \<open>
  A pass reads a terminal cause when the pin is high and the register holds
  \<open>DISTURBER\<close> or \<open>LIGHTNING\<close>.
\<close>

definition terminal :: "as3935 \<Rightarrow> 'f pass \<Rightarrow> bool" where
  "terminal det p =
     (pin p \<and> (interrupt_register p = DISTURBER det \<or> interrupt_register p = LIGHTNING det))"


subsection \<open>\<open>Sensor.timestamp\<close> and \<open>Sensor.collect\<close>\<close>

text \<open>
  What the interpreter and its libraries supply: \<open>datetime.now().isoformat(sep="T")\<close>
  and \<open>time.time()\<close>, both functions of the real time clock, and the text of a
  floating point number in an f-string.
\<close>

record 'f platform =
  now_isoformat :: "rtc \<Rightarrow> string"
  time_time :: "rtc \<Rightarrow> 'f pynum"
  str_float :: "'f \<Rightarrow> string"

text \<open>The decimal text of an integer, as \<open>str\<close> gives it.\<close>

fun str_nat :: "nat \<Rightarrow> string" where
  "str_nat n =
     (if n < 10 then [''0123456789'' ! n]
      else str_nat (n div 10) @ [''0123456789'' ! (n mod 10)])"

declare str_nat.simps [simp del]

definition str_int :: "int \<Rightarrow> string" where
  "str_int k = (if k < 0 then CHR ''-'' # str_nat (nat (- k)) else str_nat (nat k))"

fun py_str :: "'f platform \<Rightarrow> 'f pynum \<Rightarrow> string" where
  "py_str pf (PyInt k) = str_int k"
| "py_str pf (PyFloat x) = str_float pf x"

definition timestamp :: "'f platform \<Rightarrow> 'f sensor \<Rightarrow> string \<times> 'f sensor" where
  "timestamp pf s = (now_isoformat pf (clock s), emit RtcRead s)"

definition collect ::
  "'f platform \<Rightarrow> as3935 \<Rightarrow> bool \<Rightarrow> 'f pass list \<Rightarrow> 'f sensor
    \<Rightarrow> string outcome \<times> 'f pass list \<times> 'f sensor" where
  "collect pf det LS ps s =
     (case lightning det LS ps s of
        (Pending, rest, s1) \<Rightarrow> (Pending, rest, s1)
      | (Raise e, rest, s1) \<Rightarrow> (Raise e, rest, s1)
      | (Return stk, rest, s1) \<Rightarrow>
          (let (t_stmp, s2) = timestamp pf s1;
               t_int = time_time pf (clock s2);
               s3 = emit TimeRead s2;
               packet = t_stmp @ '','' @ py_str pf t_int @ '','' @ py_str pf (gps_lat s3)
                          @ '','' @ py_str pf (gps_long s3) @ '','' @ py_str pf stk
           in (Return packet, rest, emit (Print (Created packet)) s3)))"

text \<open>
  What a method leaves alone between two states of the object: the coordinates and the
  calendar value of the clock stay, time only moves forward, and the trace only grows.
\<close>

definition frame :: "'f sensor \<Rightarrow> 'f sensor \<Rightarrow> bool" where
  "frame s s' =
     (gps_lat s' = gps_lat s \<and> gps_long s' = gps_long s
      \<and> datetime (clock s') = datetime (clock s)
      \<and> elapsed (clock s) \<le> elapsed (clock s')
      \<and> (\<exists>new. trace s' = trace s @ new))"

subsection \<open>Reading a record back\<close>


text \<open>
  Modelled from the spec: reading a decimal integer, the inverse of \<open>str\<close> on integers.
  A text with any other character is not an integer.
\<close>

definition digit_of :: "char \<Rightarrow> nat option" where
  "digit_of c = map_of (zip ''0123456789'' [0..<10]) c"






subsection \<open>Simulated hardware\<close>

text \<open>
  Concrete inputs, with the integers standing for floating point numbers: the object
  before \<open>get_GPS_Fix\<close> runs, a calendar value of a given year, and an answer of the
  receiver with a given fix flag and year.
\<close>

definition power_on :: "int sensor" where
  "power_on =
     \<lparr>clock = \<lparr>datetime = None, elapsed = 0\<rparr>, GPS_ENABLE = False,
      gps_lat = PyInt (- 1), gps_long = PyInt (- 1), PiLED = False, trace = []\<rparr>"

definition utc :: "int \<Rightarrow> struct_time" where
  "utc y =
     \<lparr>tm_year = y, tm_mon = 6, tm_mday = 1, tm_hour = 12, tm_min = 0, tm_sec = 0,
      tm_wday = 5, tm_yday = 152, tm_isdst = 0\<rparr>"

definition poll :: "bool \<Rightarrow> int \<Rightarrow> int gps_module" where
  "poll fix y =
     \<lparr>has_fix = fix, timestamp_utc = utc y, latitude = PyFloat 30, longitude = PyFloat (- 97)\<rparr>"

text \<open>
  The cause codes of the detector's driver, a pass with the pin low, a pass with the pin
  high and given readouts, and a pass in which the operator interrupts.
\<close>

definition detector :: as3935 where
  "detector = \<lparr>NOISE = 1, DISTURBER = 4, LIGHTNING = 8\<rparr>"

definition low :: "int pass" where
  "low =
     \<lparr>pin = False, interrupt_register = 0, distance_to_storm = PyInt 0,
      lightning_energy = PyInt 0, ctrl_c = None\<rparr>"

definition high :: "int \<Rightarrow> int \<Rightarrow> int \<Rightarrow> int pass" where
  "high cause km energy =
     \<lparr>pin = True, interrupt_register = cause, distance_to_storm = PyInt km,
      lightning_energy = PyInt energy, ctrl_c = None\<rparr>"

definition cancel :: "cancel_point \<Rightarrow> int pass \<Rightarrow> int pass" where
  "cancel at p = p\<lparr>ctrl_c := Some at\<rparr>"

text \<open>
  An interpreter for the examples: the clock was set at 2024-06-01T12:00:00 and shows
  the seconds that have passed since, and a float prints as its integer value with
  \<open>.0\<close>. The object after a fix at latitude 30, longitude -97.
\<close>

definition interpreter :: "int platform" where
  "interpreter =
     \<lparr>now_isoformat = (\<lambda>c. ''2024-06-01T12:00:0'' @ str_nat (elapsed c div 1000)),
      time_time = (\<lambda>c. PyInt (1717243200 + int (elapsed c div 1000))),
      str_float = (\<lambda>x. str_int x @ ''.0'')\<rparr>"

definition located :: "int sensor" where
  "located = power_on\<lparr>gps_lat := PyFloat 30, gps_long := PyFloat (- 97)\<rparr>"


section \<open>Properties\<close>

lemma trace_emit [simp]: "trace (emit a s) = trace s @ [a]"
  by (simp add: emit_def)

lemma clock_emit [simp]: "clock (emit a s) = clock s"
  by (simp add: emit_def)

text \<open>
  C5. With positioning disabled \<open>get_GPS_Fix\<close> returns the sentinel coordinates
  \<open>(-1, -1)\<close> at once: it consumes no poll of the receiver and leaves the whole
  object, the real time clock and the trace of effects included, as it was.
\<close>

theorem get_GPS_Fix_disabled:
  "get_GPS_Fix False gps_module polls s = (Return (PyInt (- 1), PyInt (- 1)), polls, s)"
  by (simp add: get_GPS_Fix_def)

theorem get_GPS_Fix_disabled_witness:
  "get_GPS_Fix False (poll False 0) [poll True 2024] power_on
     = (Return (PyInt (- 1), PyInt (- 1)), [poll True 2024], power_on)"
  by (rule get_GPS_Fix_disabled)

subsection \<open>Acquiring the fix\<close>

lemma fix_loop_Nil:
  "\<not> has_fix gps \<or> check_y = 2020 \<Longrightarrow> fix_loop gps check_y [] s = (Pending, [], s)"
  by (subst fix_loop.simps) simp

lemma fix_loop_Cons:
  "\<not> has_fix gps \<or> check_y = 2020 \<Longrightarrow>
   fix_loop gps check_y (p # ps) s = fix_loop p (tm_year (timestamp_utc p)) ps (poll_cycle s)"
  by (subst fix_loop.simps) simp

lemma fix_loop_left:
  "has_fix gps \<Longrightarrow> check_y \<noteq> 2020 \<Longrightarrow> fix_loop gps check_y polls s = (Return gps, polls, s)"
  by (subst fix_loop.simps) simp

lemma fix_loop_all_blocked:
  "\<not> has_fix gps \<or> check_y = 2020 \<Longrightarrow> \<forall>q\<in>set polls. blocked q \<Longrightarrow>
   fix_loop gps check_y polls s = (Pending, [], (poll_cycle ^^ length polls) s)"
proof (induction polls arbitrary: gps check_y s)
  case Nil
  then show ?case by (simp add: fix_loop_Nil)
next
  case (Cons p ps)
  from Cons.prems(2) have "\<not> has_fix p \<or> tm_year (timestamp_utc p) = 2020"
    by (simp add: blocked_def)
  moreover from Cons.prems(2) have "\<forall>q\<in>set ps. blocked q" by simp
  ultimately have "fix_loop p (tm_year (timestamp_utc p)) ps (poll_cycle s)
      = (Pending, [], (poll_cycle ^^ length ps) (poll_cycle s))"
    by (rule Cons.IH)
  with Cons.prems(1) show ?case
    by (simp add: fix_loop_Cons funpow_swap1)
qed

lemma fix_loop_first_valid:
  "\<not> has_fix gps \<or> check_y = 2020 \<Longrightarrow> \<forall>q\<in>set pre. blocked q \<Longrightarrow> \<not> blocked v \<Longrightarrow>
   fix_loop gps check_y (pre @ v # rest) s = (Return v, rest, (poll_cycle ^^ Suc (length pre)) s)"
proof (induction pre arbitrary: gps check_y s)
  case Nil
  from Nil.prems(3) have "has_fix v" "tm_year (timestamp_utc v) \<noteq> 2020"
    by (simp_all add: blocked_def)
  with Nil.prems(1) show ?case
    by (simp add: fix_loop_Cons fix_loop_left)
next
  case (Cons p ps)
  from Cons.prems(2) have "\<not> has_fix p \<or> tm_year (timestamp_utc p) = 2020"
    by (simp add: blocked_def)
  moreover from Cons.prems(2) have "\<forall>q\<in>set ps. blocked q" by simp
  ultimately have "fix_loop p (tm_year (timestamp_utc p)) (ps @ v # rest) (poll_cycle s)
      = (Return v, rest, (poll_cycle ^^ Suc (length ps)) (poll_cycle s))"
    using Cons.prems(3) by (rule Cons.IH)
  with Cons.prems(1) show ?case
    by (simp add: fix_loop_Cons funpow_swap1)
qed

lemma get_GPS_Fix_all_blocked:
  "\<forall>q\<in>set polls. blocked q \<Longrightarrow>
   get_GPS_Fix True gps_module polls s
     = (Pending, [], (poll_cycle ^^ length polls) (start_receiver s))"
  by (simp add: get_GPS_Fix_def fix_loop_all_blocked)

lemma get_GPS_Fix_first_valid:
  "\<forall>q\<in>set pre. blocked q \<Longrightarrow> \<not> blocked v \<Longrightarrow>
   get_GPS_Fix True gps_module (pre @ v # rest) s
     = (Return (latitude v, longitude v), rest,
        set_clock v (emit (Print Got_GPS_Fix)
          ((poll_cycle ^^ Suc (length pre)) (start_receiver s))))"
  by (simp add: get_GPS_Fix_def fix_loop_first_valid)

text \<open>
  C1. With positioning enabled, whatever the receiver answers: \<open>get_GPS_Fix\<close> has
  not returned as long as every poll so far had no fix or the year 2020, it never
  raises, and when it returns the last poll it consumed is the first one with a fix and
  a year other than 2020; the coordinates returned are those of that poll.
\<close>

theorem get_GPS_Fix_enabled:
  assumes "get_GPS_Fix True gps_module polls s = (r, rest, s')"
  shows "case r of
           Pending \<Rightarrow> rest = [] \<and> (\<forall>q\<in>set polls. blocked q)
         | Raise e \<Rightarrow> False
         | Return c \<Rightarrow>
             (\<exists>pre p. polls = pre @ p # rest \<and> (\<forall>q\<in>set pre. blocked q)
                \<and> has_fix p \<and> tm_year (timestamp_utc p) \<noteq> 2020
                \<and> c = (latitude p, longitude p))"
proof (cases "\<forall>q\<in>set polls. blocked q")
  case True
  with assms show ?thesis
    by (simp add: get_GPS_Fix_all_blocked)
next
  case False
  then have "\<exists>q\<in>set polls. \<not> blocked q" by simp
  then obtain pre v post where
    polls: "polls = pre @ v # post" and v: "\<not> blocked v" and pre: "\<forall>q\<in>set pre. \<not> \<not> blocked q"
    by (auto dest!: split_list_first_prop)
  from pre have pre': "\<forall>q\<in>set pre. blocked q" by simp
  from assms have r: "r = Return (latitude v, longitude v)" and rest: "rest = post"
    by (simp_all add: polls get_GPS_Fix_first_valid [OF pre' v])
  from v have "has_fix v" "tm_year (timestamp_utc v) \<noteq> 2020"
    by (simp_all add: blocked_def)
  with polls pre' r rest show ?thesis by auto
qed

theorem get_GPS_Fix_enabled_witness:
  "\<exists>pre p. [poll False 2020, poll True 2020, poll False 2024, poll True 2024, poll True 2025]
        = pre @ p # [poll True 2025]
     \<and> (\<forall>q\<in>set pre. blocked q) \<and> has_fix p \<and> tm_year (timestamp_utc p) \<noteq> 2020
     \<and> (PyFloat 30, PyFloat (- 97)) = (latitude p, longitude p)"
proof -
  have "get_GPS_Fix True (poll False 0)
          [poll False 2020, poll True 2020, poll False 2024, poll True 2024, poll True 2025] power_on
        = (Return (PyFloat 30, PyFloat (- 97)), [poll True 2025],
           snd (snd (get_GPS_Fix True (poll False 0)
          [poll False 2020, poll True 2020, poll False 2024, poll True 2024, poll True 2025] power_on)))"
    by (simp add: get_GPS_Fix_def fix_loop.simps poll_def utc_def)
  from get_GPS_Fix_enabled [OF this] show ?thesis by simp
qed

text \<open>
  C8. Three polls with a fix and the year 2020, then one with a fix and the year 2024:
  after the three polls the call is still waiting, having run the loop body exactly
  three times; the fourth pass observes 2024 and the call returns that poll's
  coordinates.
\<close>

theorem get_GPS_Fix_scenario_D:
  assumes "has_fix a" "tm_year (timestamp_utc a) = 2020"
    and "has_fix b" "tm_year (timestamp_utc b) = 2020"
    and "has_fix c" "tm_year (timestamp_utc c) = 2020"
    and "has_fix d" "tm_year (timestamp_utc d) = 2024"
  shows "get_GPS_Fix True gps_module [a, b, c] s
           = (Pending, [], poll_cycle (poll_cycle (poll_cycle (start_receiver s))))
       \<and> get_GPS_Fix True gps_module [a, b, c, d] s
           = (Return (latitude d, longitude d), [],
              set_clock d (emit (Print Got_GPS_Fix)
                (poll_cycle (poll_cycle (poll_cycle (poll_cycle (start_receiver s)))))))"
proof -
  from assms have pre: "\<forall>q\<in>set [a, b, c]. blocked q" and d: "\<not> blocked d"
    by (simp_all add: blocked_def)
  from get_GPS_Fix_all_blocked [OF pre] get_GPS_Fix_first_valid [OF pre d, of gps_module "[]" s]
  show ?thesis by simp
qed

theorem get_GPS_Fix_scenario_D_witness:
  "get_GPS_Fix True (poll False 0) [poll True 2020, poll True 2020, poll True 2020] power_on
           = (Pending, [], poll_cycle (poll_cycle (poll_cycle (start_receiver power_on))))
   \<and> get_GPS_Fix True (poll False 0)
        [poll True 2020, poll True 2020, poll True 2020, poll True 2024] power_on
           = (Return (PyFloat 30, PyFloat (- 97)), [],
              set_clock (poll True 2024) (emit (Print Got_GPS_Fix)
                (poll_cycle (poll_cycle (poll_cycle (poll_cycle (start_receiver power_on)))))))
   \<and> filter (\<lambda>a. a = GpsUpdate) (trace (snd (snd (get_GPS_Fix True (poll False 0)
        [poll True 2020, poll True 2020, poll True 2020, poll True 2024] power_on))))
       = [GpsUpdate, GpsUpdate, GpsUpdate, GpsUpdate]"
  using get_GPS_Fix_scenario_D [of "poll True 2020" "poll True 2020" "poll True 2020"
      "poll True 2024" "poll False 0" power_on]
  by (simp add: poll_def utc_def set_clock_def poll_cycle_def sleep_def
      start_receiver_def power_on_def emit_def)

subsection \<open>Waiting for the detector\<close>


lemma lightning_pass_low:
  "ctrl_c p = None \<Longrightarrow> \<not> pin p \<Longrightarrow>
   lightning_pass det LS p d i s = (Next, d, i, emit PinRead s)"
  by (simp add: lightning_pass_def)

lemma lightning_pass_noise:
  "ctrl_c p = None \<Longrightarrow> pin p \<Longrightarrow> interrupt_register p = NOISE det \<Longrightarrow>
   lightning_pass det True p d i s =
     (Next, distance_to_storm p, i,
      emit (Led False) ((sleep 500 (emit ClearStatistics (emit (Print Noise_msg)
        (emit ReadEnergy (emit ReadDistance (emit ReadInterruptRegister
          (emit PinRead s)))))))\<lparr>PiLED := False\<rparr>))"
  by (simp add: lightning_pass_def read_detector_def classify_def settle_def)

lemma lightning_pass_disturber:
  "ctrl_c p = None \<Longrightarrow> pin p \<Longrightarrow> interrupt_register p \<noteq> NOISE det \<Longrightarrow>
   interrupt_register p = DISTURBER det \<Longrightarrow>
   lightning_pass det True p d i s =
     (Break, distance_to_storm p, i + 1,
      emit ClearStatistics (emit (Print (Disturber_msg (i + 1) (distance_to_storm p)))
        (emit ReadEnergy (emit ReadDistance (emit ReadInterruptRegister
          (emit PinRead s))))))"
  by (simp add: lightning_pass_def read_detector_def classify_def)

lemma lightning_pass_lightning:
  "ctrl_c p = None \<Longrightarrow> pin p \<Longrightarrow> interrupt_register p \<noteq> NOISE det \<Longrightarrow>
   interrupt_register p \<noteq> DISTURBER det \<Longrightarrow> interrupt_register p = LIGHTNING det \<Longrightarrow>
   lightning_pass det True p d i s =
     (Break, distance_to_storm p, i,
      emit ClearStatistics (emit (Print (Lightning_msg (distance_to_storm p)))
        (emit (Led True) ((emit ReadEnergy (emit ReadDistance (emit ReadInterruptRegister
          (emit PinRead s))))\<lparr>PiLED := True\<rparr>))))"
  by (simp add: lightning_pass_def read_detector_def classify_def)

lemma lightning_pass_other:
  "ctrl_c p = None \<Longrightarrow> pin p \<Longrightarrow> interrupt_register p \<noteq> NOISE det \<Longrightarrow>
   interrupt_register p \<noteq> DISTURBER det \<Longrightarrow> interrupt_register p \<noteq> LIGHTNING det \<Longrightarrow>
   lightning_pass det True p d i s =
     (Next, distance_to_storm p, i,
      emit (Led False) ((sleep 500 (emit ReadEnergy (emit ReadDistance
        (emit ReadInterruptRegister (emit PinRead s)))))\<lparr>PiLED := False\<rparr>))"
  by (simp add: lightning_pass_def read_detector_def classify_def settle_def)

lemma trace_sleep [simp]: "trace (sleep ms s) = trace s @ [Sleep ms]"
  by (simp add: sleep_def)

lemma trace_PiLED [simp]: "trace (s\<lparr>PiLED := b\<rparr>) = trace s"
  by simp

text \<open>A pass that does not end the loop, and one that does.\<close>

lemma lightning_pass_continues:
  assumes "ctrl_c p = None" "\<not> terminal det p"
  shows "\<exists>d' s'. lightning_pass det True p d i s = (Next, d', i, s')"
proof (cases "pin p")
  case False
  with assms show ?thesis by (simp add: lightning_pass_low)
next
  case True
  with assms(2) have nt: "interrupt_register p \<noteq> DISTURBER det"
    "interrupt_register p \<noteq> LIGHTNING det"
    by (simp_all add: terminal_def)
  show ?thesis
  proof (cases "interrupt_register p = NOISE det")
    case True
    with assms(1) \<open>pin p\<close> show ?thesis by (simp add: lightning_pass_noise)
  next
    case False
    with assms(1) \<open>pin p\<close> nt show ?thesis by (simp add: lightning_pass_other)
  qed
qed

lemma lightning_pass_breaks:
  assumes "ctrl_c p = None" "terminal det p" "interrupt_register p \<noteq> NOISE det"
  shows "\<exists>i' s'. lightning_pass det True p d i s = (Break, distance_to_storm p, i', s')"
proof -
  from assms(2) have pin: "pin p"
    and c: "interrupt_register p = DISTURBER det \<or> interrupt_register p = LIGHTNING det"
    by (simp_all add: terminal_def)
  show ?thesis
  proof (cases "interrupt_register p = DISTURBER det")
    case True
    with assms(1,3) pin show ?thesis by (simp add: lightning_pass_disturber)
  next
    case False
    with c have "interrupt_register p = LIGHTNING det" by simp
    with assms(1,3) pin False show ?thesis by (simp add: lightning_pass_lightning)
  qed
qed


lemma lightning_loop_first_terminal:
  "\<forall>p\<in>set pre. ctrl_c p = None \<and> \<not> terminal det p \<Longrightarrow>
    ctrl_c t = None \<Longrightarrow> terminal det t \<Longrightarrow> interrupt_register t \<noteq> NOISE det \<Longrightarrow>
    \<exists>s'. lightning_loop det True d i (pre @ t # rest) s
           = (Return (), distance_to_storm t, rest, s')"
proof (induction pre arbitrary: d s)
  case Nil
  then obtain i' s' where
    "lightning_pass det True t d i s = (Break, distance_to_storm t, i', s')"
    using lightning_pass_breaks by blast
  then show ?case by simp
next
  case (Cons p ps)
  from Cons.prems have "ctrl_c p = None" "\<not> terminal det p" by simp_all
  then obtain d1 s1 where "lightning_pass det True p d i s = (Next, d1, i, s1)"
    using lightning_pass_continues by blast
  moreover from Cons.prems have "\<forall>q\<in>set ps. ctrl_c q = None \<and> \<not> terminal det q" by simp
  from Cons.IH [OF this Cons.prems(2,3,4)] obtain s' where
    "lightning_loop det True d1 i (ps @ t # rest) s1
       = (Return (), distance_to_storm t, rest, s')" by blast
  ultimately show ?case by simp
qed




lemma lightning_from_loop:
  assumes "lightning det LS ps s = (r, rest, s')"
  shows "\<exists>out d. lightning_loop det LS (PyInt (- 1)) 0 ps s = (out, d, rest, s')"
proof -
  obtain out d rest1 s1 where
    loop: "lightning_loop det LS (PyInt (- 1)) 0 ps s = (out, d, rest1, s1)"
    by (metis prod_cases4)
  with assms have "rest = rest1" "s' = s1"
    by (auto simp: lightning_def split: outcome.splits exn.splits)
  with loop show ?thesis by blast
qed

lemma lightning_never_raises: "fst (lightning det LS ps s) \<noteq> Raise e"
proof -
  obtain out d rest1 s1 where
    "lightning_loop det LS (PyInt (- 1)) 0 ps s = (out, d, rest1, s1)"
    by (metis prod_cases4)
  then show ?thesis
    by (auto simp: lightning_def split: outcome.splits exn.splits)
qed



text \<open>
  C7. When the first pass that reads \<open>DISTURBER\<close> or \<open>LIGHTNING\<close> reads
  \<open>DISTURBER\<close> (a code other than \<open>NOISE\<close>), the call returns the value that
  \<open>distance_to_storm\<close> gave in that pass.
\<close>

theorem lightning_disturber_distance:
  assumes "DISTURBER det \<noteq> NOISE det"
    and "\<forall>p\<in>set pre. ctrl_c p = None \<and> \<not> terminal det p"
    and "ctrl_c t = None" "pin t" "interrupt_register t = DISTURBER det"
  shows "\<exists>s'. lightning det True (pre @ t # rest) s = (Return (distance_to_storm t), rest, s')"
proof -
  from assms(4,5) have "terminal det t" by (simp add: terminal_def)
  moreover from assms(1,5) have "interrupt_register t \<noteq> NOISE det" by simp
  ultimately obtain s' where
    "lightning_loop det True (PyInt (- 1)) 0 (pre @ t # rest) s
       = (Return (), distance_to_storm t, rest, s')"
    using lightning_loop_first_terminal [OF assms(2,3)] by blast
  then show ?thesis by (simp add: lightning_def)
qed

theorem lightning_disturber_distance_witness:
  "\<exists>s'. lightning detector True ([low, high 1 5 100, low] @ high 4 7 200 # [high 8 2 300])
      power_on = (Return (PyInt 7), [high 8 2 300], s')"
proof -
  have "DISTURBER detector \<noteq> NOISE detector" by (simp add: detector_def)
  moreover have "\<forall>p\<in>set [low, high 1 5 100, low]. ctrl_c p = None \<and> \<not> terminal detector p"
    by (simp add: terminal_def detector_def low_def high_def)
  moreover have "ctrl_c (high 4 7 200) = None" "pin (high 4 7 200)"
    "interrupt_register (high 4 7 200) = DISTURBER detector"
    by (simp_all add: detector_def high_def)
  ultimately have "\<exists>s'. lightning detector True
      ([low, high 1 5 100, low] @ high 4 7 200 # [high 8 2 300]) power_on
        = (Return (distance_to_storm (high 4 7 200)), [high 8 2 300], s')"
    by (rule lightning_disturber_distance)
  then show ?thesis by (simp add: high_def)
qed



subsection \<open>The detector disabled\<close>

lemma lightning_pass_disabled:
  "lightning_pass det False p d i s =
     (if ctrl_c p = Some AtPinRead then (Raised KeyboardInterrupt, d, i, s)
      else if pin p then (Break, d, i, emit PinRead s)
      else (Next, d, i, emit PinRead s))"
  by (simp add: lightning_pass_def)

lemma trace_pin_reads: "trace ((emit PinRead ^^ n) s) = trace s @ replicate n PinRead"
  by (induction n) (simp_all add: replicate_append_same)

lemma lightning_loop_disabled_waits:
  "\<forall>p\<in>set ps. \<not> pin p \<and> ctrl_c p \<noteq> Some AtPinRead \<Longrightarrow>
   lightning_loop det False d i ps s = (Pending, d, [], (emit PinRead ^^ length ps) s)"
  by (induction ps arbitrary: s) (simp_all add: lightning_pass_disabled funpow_swap1)

lemma lightning_loop_disabled_released:
  "\<forall>p\<in>set pre. \<not> pin p \<and> ctrl_c p \<noteq> Some AtPinRead \<Longrightarrow>
   pin t \<or> ctrl_c t = Some AtPinRead \<Longrightarrow>
   lightning_loop det False d i (pre @ t # rest) s =
     (if ctrl_c t = Some AtPinRead
      then (Raise KeyboardInterrupt, d, rest, (emit PinRead ^^ length pre) s)
      else (Return (), d, rest, (emit PinRead ^^ Suc (length pre)) s))"
  by (induction pre arbitrary: s) (auto simp: lightning_pass_disabled funpow_swap1)

text \<open>
  C3, as the code has it. With the detector disabled the call reads no register of the
  detector and returns nothing but the sentinel \<open>-1\<close>, yet it still polls the
  interrupt pin: it is waiting as long as every poll read low, and it returns at the
  first pass in which the pin reads high or the operator interrupts. All it does to the
  hardware is read the pin.
\<close>

theorem lightning_disabled:
  assumes run: "lightning det False ps s = (r, rest, s')"
  shows "(case r of
            Pending \<Rightarrow> rest = [] \<and> (\<forall>p\<in>set ps. \<not> pin p \<and> ctrl_c p \<noteq> Some AtPinRead)
          | Raise e \<Rightarrow> False
          | Return d \<Rightarrow>
              d = PyInt (- 1)
              \<and> (\<exists>pre t. ps = pre @ t # rest
                    \<and> (\<forall>p\<in>set pre. \<not> pin p \<and> ctrl_c p \<noteq> Some AtPinRead)
                    \<and> (pin t \<or> ctrl_c t = Some AtPinRead)))
       \<and> (\<exists>n. trace s' = trace s @ replicate n PinRead)"
proof (cases "\<forall>p\<in>set ps. \<not> pin p \<and> ctrl_c p \<noteq> Some AtPinRead")
  case True
  from lightning_loop_disabled_waits [OF True] run
  have "r = Pending" "rest = []" "s' = (emit PinRead ^^ length ps) s"
    by (simp_all add: lightning_def)
  with True show ?thesis by (auto simp: trace_pin_reads)
next
  case False
  then have "\<exists>p\<in>set ps. pin p \<or> ctrl_c p = Some AtPinRead" by auto
  then obtain pre t post where
    ps: "ps = pre @ t # post" and t: "pin t \<or> ctrl_c t = Some AtPinRead"
    and pre: "\<forall>p\<in>set pre. \<not> (pin p \<or> ctrl_c p = Some AtPinRead)"
    by (auto dest!: split_list_first_prop)
  from pre have pre': "\<forall>p\<in>set pre. \<not> pin p \<and> ctrl_c p \<noteq> Some AtPinRead" by simp
  from lightning_loop_disabled_released [OF pre' t] run ps
  have r: "r = Return (PyInt (- 1))" and rest: "rest = post"
    and s': "s' = (emit PinRead ^^ (if ctrl_c t = Some AtPinRead then length pre
                                      else Suc (length pre))) s"
    by (simp_all add: lightning_def split: if_splits)
  from s' have "\<exists>n. trace s' = trace s @ replicate n PinRead"
    using trace_pin_reads by blast
  with r rest ps pre' t show ?thesis by auto
qed

theorem lightning_disabled_witness:
  "(\<exists>pre t. [low, low, high 4 7 200, low] = pre @ t # [low]
        \<and> (\<forall>p\<in>set pre. \<not> pin p \<and> ctrl_c p \<noteq> Some AtPinRead)
        \<and> (pin t \<or> ctrl_c t = Some AtPinRead))
   \<and> (\<exists>n. trace (power_on\<lparr>trace := [PinRead, PinRead, PinRead]\<rparr>)
            = trace power_on @ replicate n PinRead)"
proof -
  have "lightning detector False [low, low, high 4 7 200, low] power_on
      = (Return (PyInt (- 1)), [low], power_on\<lparr>trace := [PinRead, PinRead, PinRead]\<rparr>)"
    by (simp add: lightning_def lightning_pass_def low_def high_def emit_def power_on_def)
  from lightning_disabled [OF this] show ?thesis by simp
qed

text \<open>
  C3 as stated fails: with the detector disabled and the pin low on two polls in a row,
  the call has read the pin twice and has not returned.
\<close>

theorem lightning_disabled_counterexample:
  "lightning detector False [low, low] power_on
     = (Pending, [], power_on\<lparr>trace := [PinRead, PinRead]\<rparr>)
   \<and> fst (lightning detector False [low, low] power_on) \<noteq> Return (PyInt (- 1))"
  by (simp add: lightning_def lightning_pass_def low_def emit_def power_on_def)

subsection \<open>The operator's interrupt\<close>

text \<open>
  An interrupt that arrives before the call has read the detector leaves \<open>distance\<close>
  at its initial \<open>-1\<close>.
\<close>

lemma lightning_cancel_before_any_read:
  assumes "\<forall>p\<in>set pre. ctrl_c p = None \<and> \<not> pin p"
    and "ctrl_c c = Some AtPinRead
         \<or> pin c \<and> (ctrl_c c = Some AtReadRegister \<or> ctrl_c c = Some AtReadDistance)"
  shows "\<exists>s'. lightning det True (pre @ c # rest) s = (Return (PyInt (- 1)), rest, s')"
proof -
  from assms have "\<exists>s'. lightning_loop det True d i (pre @ c # rest) s
      = (Raise KeyboardInterrupt, d, rest, s')" for d i
  proof (induction pre arbitrary: s)
    case Nil
    then show ?case by (auto simp: lightning_pass_def read_detector_def)
  next
    case (Cons p ps)
    then show ?case by (simp add: lightning_pass_low)
  qed
  then obtain s' where "lightning_loop det True (PyInt (- 1)) 0 (pre @ c # rest) s
      = (Raise KeyboardInterrupt, PyInt (- 1), rest, s')" by blast
  then show ?thesis by (simp add: lightning_def)
qed

text \<open>
  C4 fails on the code. The interrupt is caught, but \<open>distance\<close> is assigned from
  \<open>distance_to_storm\<close> before the cause is looked at: once a \<open>NOISE\<close> pass has been
  processed, an interrupt in the next pass makes the call return the distance read in
  the \<open>NOISE\<close> pass, not \<open>-1\<close>.
\<close>

theorem lightning_cancel_after_noise:
  assumes "ctrl_c p = None" "pin p" "interrupt_register p = NOISE det"
    and "ctrl_c c = Some AtPinRead"
  shows "\<exists>s'. lightning det True (p # c # rest) s = (Return (distance_to_storm p), rest, s')"
proof -
  from assms(1-3) obtain s1 where
    noise: "lightning_pass det True p (PyInt (- 1)) 0 s = (Next, distance_to_storm p, 0, s1)"
    by (simp add: lightning_pass_noise)
  from assms(4) have
    "lightning_pass det True c (distance_to_storm p) 0 s1
       = (Raised KeyboardInterrupt, distance_to_storm p, 0, s1)"
    by (simp add: lightning_pass_def)
  with noise have "lightning_loop det True (PyInt (- 1)) 0 (p # c # rest) s
      = (Raise KeyboardInterrupt, distance_to_storm p, rest, s1)"
    by simp
  then show ?thesis by (simp add: lightning_def)
qed

theorem lightning_cancel_after_noise_witness:
  "\<exists>s'. lightning detector True (high 1 5 100 # cancel AtPinRead low # []) power_on
     = (Return (PyInt 5), [], s')"
proof -
  have "ctrl_c (high 1 5 100) = None" "pin (high 1 5 100)"
    "interrupt_register (high 1 5 100) = NOISE detector"
    "ctrl_c (cancel AtPinRead low) = Some AtPinRead"
    by (simp_all add: high_def detector_def cancel_def)
  from lightning_cancel_after_noise [OF this, of "[]" power_on] show ?thesis
    by (simp add: high_def)
qed

subsection \<open>Assembling the record\<close>

lemma frame_refl [simp]: "frame s s"
  by (simp add: frame_def)

lemma frame_trans: "frame s s1 \<Longrightarrow> frame s1 s2 \<Longrightarrow> frame s s2"
  by (auto simp: frame_def)

lemma frame_emit [simp]: "frame s (emit a s)"
  by (simp add: frame_def emit_def)

lemma frame_sleep [simp]: "frame s (sleep ms s)"
  by (simp add: frame_def sleep_def emit_def)

lemma frame_PiLED [simp]: "frame s (s\<lparr>PiLED := b\<rparr>)"
  by (simp add: frame_def)

lemma frame_step: "frame s s1 \<Longrightarrow> frame s (emit a s1)"
  "frame s s1 \<Longrightarrow> frame s (sleep ms s1)" "frame s s1 \<Longrightarrow> frame s (s1\<lparr>PiLED := b\<rparr>)"
  by (auto intro: frame_trans)

lemma settle_frame: "settle p d i s = (f, d', i', s') \<Longrightarrow> frame s s'"
  by (auto simp: settle_def frame_step split: if_splits)

lemma classify_frame: "classify det p d i s = (f, d', i', s') \<Longrightarrow> frame s s'"
  by (auto simp: classify_def Let_def frame_step split: if_splits
      dest!: settle_frame intro: frame_trans [rotated])

lemma read_detector_frame: "read_detector det p d i s = (f, d', i', s') \<Longrightarrow> frame s s'"
  by (auto simp: read_detector_def frame_step split: if_splits
      dest!: classify_frame intro: frame_trans [rotated])

lemma lightning_pass_frame: "lightning_pass det LS p d i s = (f, d', i', s') \<Longrightarrow> frame s s'"
  by (auto simp: lightning_pass_def frame_step split: if_splits
      dest!: read_detector_frame intro: frame_trans [rotated])

lemma lightning_loop_frame:
  "lightning_loop det LS d i ps s = (out, d', rest, s') \<Longrightarrow> frame s s'"
proof (induction ps arbitrary: d i s)
  case Nil
  then show ?case by simp
next
  case (Cons p ps)
  obtain f d1 i1 s1 where pass: "lightning_pass det LS p d i s = (f, d1, i1, s1)"
    by (metis prod_cases4)
  then have 1: "frame s s1" by (rule lightning_pass_frame)
  show ?case
  proof (cases f)
    case Next
    with pass Cons.prems have "lightning_loop det LS d1 i1 ps s1 = (out, d', rest, s')"
      by simp
    then have "frame s1 s'" by (rule Cons.IH)
    with 1 show ?thesis by (rule frame_trans)
  next
    case Break
    with pass Cons.prems 1 show ?thesis by simp
  next
    case (Raised e)
    with pass Cons.prems 1 show ?thesis by simp
  qed
qed

lemma lightning_frame: "lightning det LS ps s = (r, rest, s') \<Longrightarrow> frame s s'"
  using lightning_from_loop lightning_loop_frame by blast


text \<open>
  C6. \<open>collect\<close> gives a record only when \<open>lightning\<close> has returned, and never
  raises. The record is the five fields in the order timestamp, epoch seconds, latitude,
  longitude, distance, joined by commas; the timestamp and the epoch seconds are read
  from the clock as \<open>lightning\<close> left it, after everything \<open>lightning\<close> did, and the
  coordinates are those the object held before the call.
\<close>

theorem collect_record:
  assumes run: "collect pf det LS ps s = (r, rest, s2)"
  shows "case r of
           Pending \<Rightarrow> fst (lightning det LS ps s) = Pending
         | Raise e \<Rightarrow> False
         | Return packet \<Rightarrow>
             (\<exists>stk s1 during.
                lightning det LS ps s = (Return stk, rest, s1)
                \<and> packet = now_isoformat pf (clock s1) @ '','' @ py_str pf (time_time pf (clock s1))
                    @ '','' @ py_str pf (gps_lat s) @ '','' @ py_str pf (gps_long s)
                    @ '','' @ py_str pf stk
                \<and> trace s1 = trace s @ during
                \<and> trace s2 = trace s @ during @ [RtcRead, TimeRead, Print (Created packet)]
                \<and> elapsed (clock s) \<le> elapsed (clock s1))"
proof -
  obtain r1 rest1 s1 where l: "lightning det LS ps s = (r1, rest1, s1)"
    by (metis prod_cases3)
  then have f: "frame s s1" by (rule lightning_frame)
  from lightning_never_raises [of det LS ps s] l have nr: "\<And>e. r1 \<noteq> Raise e" by simp
  show ?thesis
  proof (cases r1)
    case Pending
    with run l show ?thesis by (simp add: collect_def)
  next
    case (Raise e)
    with nr [of e] show ?thesis by simp
  next
    case (Return stk)
    from f obtain during where d: "trace s1 = trace s @ during"
      by (auto simp: frame_def)
    from f have g: "gps_lat s1 = gps_lat s" "gps_long s1 = gps_long s"
      "elapsed (clock s) \<le> elapsed (clock s1)"
      by (simp_all add: frame_def)
    from run l Return d g show ?thesis
      by (auto simp: collect_def timestamp_def emit_def Let_def)
  qed
qed

theorem collect_record_witness:
  "\<exists>stk s1 during.
      lightning detector True [low, high 1 5 100, high 1 6 100, high 4 7 200, low] located
        = (Return stk, [low], s1)
      \<and> ''2024-06-01T12:00:01,1717243201,30.0,-97.0,7''
          = now_isoformat interpreter (clock s1) @ '','' 
            @ py_str interpreter (time_time interpreter (clock s1))
            @ '','' @ py_str interpreter (gps_lat located)
            @ '','' @ py_str interpreter (gps_long located)
            @ '','' @ py_str interpreter stk
      \<and> trace s1 = trace located @ during
      \<and> trace (snd (snd (collect interpreter detector True
            [low, high 1 5 100, high 1 6 100, high 4 7 200, low] located)))
          = trace located @ during
            @ [RtcRead, TimeRead,
               Print (Created ''2024-06-01T12:00:01,1717243201,30.0,-97.0,7'')]
      \<and> elapsed (clock located) \<le> elapsed (clock s1)"
proof -
  have "collect interpreter detector True
      [low, high 1 5 100, high 1 6 100, high 4 7 200, low] located
    = (Return ''2024-06-01T12:00:01,1717243201,30.0,-97.0,7'', [low],
       snd (snd (collect interpreter detector True
         [low, high 1 5 100, high 1 6 100, high 4 7 200, low] located)))"
    by (simp add: collect_def timestamp_def lightning_def lightning_pass_def
        read_detector_def classify_def settle_def sleep_def emit_def
        detector_def low_def high_def located_def power_on_def interpreter_def
        str_int_def str_nat.simps Let_def)
  from collect_record [OF this] show ?thesis by simp
qed

subsection \<open>Reading the record back\<close>




lemma digit_of_Some: "digit_of c = Some d \<Longrightarrow> c \<in> set ''0123456789''"
  unfolding digit_of_def by (drule map_of_SomeD) (auto dest: set_zip_leftD)



















end
